theory Spec2Isabelle
  imports Main
begin

section \<open>Tags and player selection (qt/aqt/sound.py, class AVPlayer)\<close>

text \<open>
  Modelled from the spec: the tag type \<open>AVTag\<close> is imported from \<open>anki.sound\<close>, which is
  not part of the sources. The spec describes it as a tagged union with at least a
  sound-or-video file reference carrying a path, extensible to other kinds such as
  text-to-speech; the second constructor stands for any tag that is not a
  \<open>SoundOrVideoTag\<close>.
\<close>

datatype AVTag = SoundOrVideoTag string | TTSTag string

text \<open>
  A player is a value of an arbitrary type \<open>'p\<close>; the abstract method
  \<open>Player.rank_for_tag\<close> is the parameter \<open>rank_for_tag :: 'p \<Rightarrow> AVTag \<Rightarrow> int option\<close>,
  with \<open>None\<close> for Python's \<open>None\<close>.

  \<open>rank_players\<close> is the \<open>for p in self.players\<close> loop of \<open>_best_player_for_tag\<close>, with the
  list \<open>ranked\<close> as accumulator.
\<close>

fun rank_players ::
  "('p \<Rightarrow> AVTag \<Rightarrow> int option) \<Rightarrow> 'p list \<Rightarrow> AVTag \<Rightarrow> (int \<times> 'p) list \<Rightarrow> (int \<times> 'p) list" where
  "rank_players rank_for_tag [] tag ranked = ranked"
| "rank_players rank_for_tag (p # ps) tag ranked =
     (case rank_for_tag p tag of
        None \<Rightarrow> rank_players rank_for_tag ps tag ranked
      | Some rank \<Rightarrow> rank_players rank_for_tag ps tag (ranked @ [(rank, p)]))"

text \<open>
  \<open>ranked.sort(key=itemgetter(0))\<close> is Python's stable sort on the first component;
  \<open>sort_key fst\<close> is a stable insertion sort. \<open>ranked[-1][1]\<close> is the second component of
  the last element, read only when the list is not empty.
\<close>

definition best_player_for_tag ::
  "('p \<Rightarrow> AVTag \<Rightarrow> int option) \<Rightarrow> 'p list \<Rightarrow> AVTag \<Rightarrow> 'p option" where
  "best_player_for_tag rank_for_tag players tag =
     (let ranked = sort_key fst (rank_players rank_for_tag players tag [])
      in if ranked \<noteq> [] then Some (snd (last ranked)) else None)"

text \<open>The pair that the loop appends for one player, if any.\<close>

definition rank_pair :: "('p \<Rightarrow> AVTag \<Rightarrow> int option) \<Rightarrow> AVTag \<Rightarrow> 'p \<Rightarrow> (int \<times> 'p) option" where
  "rank_pair rank_for_tag tag p = map_option (\<lambda>r. (r, p)) (rank_for_tag p tag)"

text \<open>The registry of the spec's example: players A and B, both of rank 1.\<close>

definition rank_AB :: "string \<Rightarrow> AVTag \<Rightarrow> int option" where
  "rank_AB p tag = (if p = ''A'' \<or> p = ''B'' then Some 1 else None)"

section \<open>The scheduler (class AVPlayer)\<close>

text \<open>
  The scheduler calls methods of players and notification hooks and prints a diagnostic.
  These calls are recorded, in order, in the field \<open>effects\<close>:
  \<open>PlayerPlay p tag\<close> is \<open>p.play(tag, self._on_play_finished)\<close>, \<open>PlayerStop p\<close> is
  \<open>p.stop()\<close>, \<open>WillPlay\<close> and \<open>DidPlay\<close> are the two hooks, \<open>NoPlayersFound\<close> is the
  \<open>print("no players found for", tag)\<close>. A player's \<open>play\<close> does not block and reports
  completion later through the callback; the callback is the operation \<open>on_play_finished\<close>.

  \<open>players\<close> and \<open>interrupt_current_audio\<close> are class attributes that no method of
  \<open>AVPlayer\<close> writes; \<open>enqueued\<close> and \<open>current_player\<close> are the instance attributes.
\<close>

datatype 'p effect =
    PlayerPlay 'p AVTag
  | PlayerStop 'p
  | WillPlay AVTag
  | DidPlay
  | NoPlayersFound AVTag

record 'p AVPlayer =
  players :: "'p list"
  interrupt_current_audio :: bool
  enqueued :: "AVTag list"
  current_player :: "'p option"
  effects :: "'p effect list"

definition new_AVPlayer :: "'p list \<Rightarrow> bool \<Rightarrow> 'p AVPlayer" where
  "new_AVPlayer ps interrupt =
     \<lparr>players = ps, interrupt_current_audio = interrupt, enqueued = [],
      current_player = None, effects = []\<rparr>"

definition emit :: "'p effect \<Rightarrow> 'p AVPlayer \<Rightarrow> 'p AVPlayer" where
  "emit e s = s\<lparr>effects := effects s @ [e]\<rparr>"

definition stop_if_playing :: "'p AVPlayer \<Rightarrow> 'p AVPlayer" where
  "stop_if_playing s =
     (let s1 = (case current_player s of Some p \<Rightarrow> emit (PlayerStop p) s | None \<Rightarrow> s)
      in s1\<lparr>current_player := None\<rparr>)"

definition pop_next :: "'p AVPlayer \<Rightarrow> AVTag option \<times> 'p AVPlayer" where
  "pop_next s =
     (case enqueued s of
        [] \<Rightarrow> (None, s)
      | tag # rest \<Rightarrow> (Some tag, s\<lparr>enqueued := rest\<rparr>))"

text \<open>\<open>AVPlayer._play\<close>.\<close>

definition AVPlayer_play ::
  "('p \<Rightarrow> AVTag \<Rightarrow> int option) \<Rightarrow> AVTag \<Rightarrow> 'p AVPlayer \<Rightarrow> 'p AVPlayer" where
  "AVPlayer_play rank_for_tag tag s =
     (case best_player_for_tag rank_for_tag (players s) tag of
        Some best_player \<Rightarrow>
          emit (PlayerPlay best_player tag)
            (emit (WillPlay tag) (s\<lparr>current_player := Some best_player\<rparr>))
      | None \<Rightarrow> emit (NoPlayersFound tag) s)"

definition play_next_if_idle ::
  "('p \<Rightarrow> AVTag \<Rightarrow> int option) \<Rightarrow> 'p AVPlayer \<Rightarrow> 'p AVPlayer" where
  "play_next_if_idle rank_for_tag s =
     (case current_player s of
        Some p \<Rightarrow> s
      | None \<Rightarrow>
          (case pop_next s of
             (None, s') \<Rightarrow> s'
           | (Some next, s') \<Rightarrow> AVPlayer_play rank_for_tag next s'))"

definition play_tags ::
  "('p \<Rightarrow> AVTag \<Rightarrow> int option) \<Rightarrow> AVTag list \<Rightarrow> 'p AVPlayer \<Rightarrow> 'p AVPlayer" where
  "play_tags rank_for_tag tags s =
     (let s1 = s\<lparr>enqueued := tags\<rparr>;
          s2 = (if interrupt_current_audio s1 then stop_if_playing s1 else s1)
      in play_next_if_idle rank_for_tag s2)"

definition extend_and_play ::
  "('p \<Rightarrow> AVTag \<Rightarrow> int option) \<Rightarrow> AVTag list \<Rightarrow> 'p AVPlayer \<Rightarrow> 'p AVPlayer" where
  "extend_and_play rank_for_tag tags s =
     play_next_if_idle rank_for_tag (s\<lparr>enqueued := enqueued s @ tags\<rparr>)"

definition stop_and_clear_queue :: "'p AVPlayer \<Rightarrow> 'p AVPlayer" where
  "stop_and_clear_queue s = stop_if_playing (s\<lparr>enqueued := []\<rparr>)"

definition insert_file ::
  "('p \<Rightarrow> AVTag \<Rightarrow> int option) \<Rightarrow> string \<Rightarrow> 'p AVPlayer \<Rightarrow> 'p AVPlayer" where
  "insert_file rank_for_tag filename s =
     play_next_if_idle rank_for_tag (s\<lparr>enqueued := SoundOrVideoTag filename # enqueued s\<rparr>)"

definition on_play_finished ::
  "('p \<Rightarrow> AVTag \<Rightarrow> int option) \<Rightarrow> 'p AVPlayer \<Rightarrow> 'p AVPlayer" where
  "on_play_finished rank_for_tag s =
     play_next_if_idle rank_for_tag (emit DidPlay (s\<lparr>current_player := None\<rparr>))"

text \<open>A sequence of scheduler operations, as the primary context performs them.\<close>

datatype scheduler_op =
    PlayTags "AVTag list"
  | ExtendAndPlay "AVTag list"
  | InsertFile string
  | PlayFinished
  | StopAndClearQueue

fun apply_op ::
  "('p \<Rightarrow> AVTag \<Rightarrow> int option) \<Rightarrow> scheduler_op \<Rightarrow> 'p AVPlayer \<Rightarrow> 'p AVPlayer" where
  "apply_op rk (PlayTags tags) s = play_tags rk tags s"
| "apply_op rk (ExtendAndPlay tags) s = extend_and_play rk tags s"
| "apply_op rk (InsertFile filename) s = insert_file rk filename s"
| "apply_op rk PlayFinished s = on_play_finished rk s"
| "apply_op rk StopAndClearQueue s = stop_and_clear_queue s"

fun run_ops ::
  "('p \<Rightarrow> AVTag \<Rightarrow> int option) \<Rightarrow> scheduler_op list \<Rightarrow> 'p AVPlayer \<Rightarrow> 'p AVPlayer" where
  "run_ops rk [] s = s"
| "run_ops rk (operation # ops) s = run_ops rk ops (apply_op rk operation s)"

text \<open>
  Reading a sequence of effects from the players' side: \<open>playing_after a es\<close> is the player
  that has been started and neither stopped nor reported finished after the effects
  \<open>es\<close>, when \<open>a\<close> was that player before them. \<open>exclusive a es\<close> says that every
  \<open>play\<close> in \<open>es\<close> is issued at a moment when no player is in that condition.
\<close>

fun playing_after :: "'p option \<Rightarrow> 'p effect list \<Rightarrow> 'p option" where
  "playing_after a [] = a"
| "playing_after a (PlayerPlay p tag # es) = playing_after (Some p) es"
| "playing_after a (PlayerStop p # es) = playing_after None es"
| "playing_after a (DidPlay # es) = playing_after None es"
| "playing_after a (WillPlay tag # es) = playing_after a es"
| "playing_after a (NoPlayersFound tag # es) = playing_after a es"

fun exclusive :: "'p option \<Rightarrow> 'p effect list \<Rightarrow> bool" where
  "exclusive a [] = True"
| "exclusive a (PlayerPlay p tag # es) = (a = None \<and> exclusive (Some p) es)"
| "exclusive a (PlayerStop p # es) = exclusive None es"
| "exclusive a (DidPlay # es) = exclusive None es"
| "exclusive a (WillPlay tag # es) = exclusive a es"
| "exclusive a (NoPlayersFound tag # es) = exclusive a es"

section \<open>Process-backed players (class SimpleProcessPlayer)\<close>

text \<open>
  One play request runs \<open>_play\<close> on a background thread and then \<open>_on_done\<close> with its
  result. What the background thread meets while it runs is a list of events:
  \<open>Wait r\<close> is one call \<open>self._process.wait(0.1)\<close> with its outcome (the process has exited
  with a return code, or \<open>subprocess.TimeoutExpired\<close> was raised), and \<open>StopCalled\<close> is the
  assignment \<open>self._terminate_flag = True\<close> that \<open>stop()\<close> performs on the other thread.
  The player's calls to the outside (\<open>Popen\<close>, the print of a return code, \<open>terminate\<close>,
  and the completion callback \<open>cb\<close>, named by a number) are recorded in \<open>proc_log\<close>.
\<close>

datatype wait_result = Exited int | TimeoutExpired

datatype bg_event = Wait wait_result | StopCalled

datatype exn = PlayerInterrupted | AssertionError

datatype task_result = Returned | Raised exn

datatype proc_effect =
    Popen "string list"
  | PrintReturnCode int
  | Terminate
  | OnDoneCallback nat

record SimpleProcessPlayer =
  args :: "string list"
  terminate_flag :: bool
  process :: "string list option"
  proc_log :: "proc_effect list"

definition new_SimpleProcessPlayer :: "string list \<Rightarrow> SimpleProcessPlayer" where
  "new_SimpleProcessPlayer a =
     \<lparr>args = a, terminate_flag = False, process = None, proc_log = []\<rparr>"

text \<open>The \<open>finally\<close> block of \<open>_wait_for_termination\<close>.\<close>

definition finally_block :: "SimpleProcessPlayer \<Rightarrow> SimpleProcessPlayer" where
  "finally_block p = p\<lparr>process := None, terminate_flag := False\<rparr>"

text \<open>
  The \<open>while True\<close> loop of \<open>_wait_for_termination\<close>. The loop has no bound of its own: when
  the events end before the loop is left, the result is \<open>None\<close> (still polling).
\<close>

fun wait_for_termination ::
  "bg_event list \<Rightarrow> SimpleProcessPlayer \<Rightarrow> (task_result \<times> SimpleProcessPlayer) option" where
  "wait_for_termination [] p = None"
| "wait_for_termination (StopCalled # es) p =
     wait_for_termination es (p\<lparr>terminate_flag := True\<rparr>)"
| "wait_for_termination (Wait (Exited returncode) # es) p =
     Some (Returned,
       finally_block
         (if returncode \<noteq> 0 then p\<lparr>proc_log := proc_log p @ [PrintReturnCode returncode]\<rparr>
          else p))"
| "wait_for_termination (Wait TimeoutExpired # es) p =
     (if terminate_flag p
      then Some (Raised PlayerInterrupted, finally_block (p\<lparr>proc_log := proc_log p @ [Terminate]\<rparr>))
      else wait_for_termination es p)"

text \<open>\<open>SimpleProcessPlayer._play\<close>: the assertion on the tag, \<open>Popen\<close>, then the loop.\<close>

fun SimpleProcessPlayer_play_task ::
  "AVTag \<Rightarrow> bg_event list \<Rightarrow> SimpleProcessPlayer \<Rightarrow> (task_result \<times> SimpleProcessPlayer) option" where
  "SimpleProcessPlayer_play_task (SoundOrVideoTag filename) es p =
     wait_for_termination es
       (p\<lparr>process := Some (args p @ [filename]),
          proc_log := proc_log p @ [Popen (args p @ [filename])]\<rparr>)"
| "SimpleProcessPlayer_play_task (TTSTag text) es p = Some (Raised AssertionError, p)"

text \<open>
  \<open>_on_done(ret, cb)\<close>: \<open>ret.result()\<close> raises what the task raised; only
  \<open>PlayerInterrupted\<close> is caught.
\<close>

fun on_done :: "task_result \<Rightarrow> nat \<Rightarrow> SimpleProcessPlayer \<Rightarrow> exn + SimpleProcessPlayer" where
  "on_done Returned cb p = Inr (p\<lparr>proc_log := proc_log p @ [OnDoneCallback cb]\<rparr>)"
| "on_done (Raised PlayerInterrupted) cb p = Inr p"
| "on_done (Raised AssertionError) cb p = Inl AssertionError"

text \<open>\<open>play(tag, on_done)\<close>: the task manager runs the task, then \<open>_on_done\<close> on its result.\<close>

definition SimpleProcessPlayer_play ::
  "AVTag \<Rightarrow> nat \<Rightarrow> bg_event list \<Rightarrow> SimpleProcessPlayer \<Rightarrow> (exn + SimpleProcessPlayer) option" where
  "SimpleProcessPlayer_play tag cb es p =
     (case SimpleProcessPlayer_play_task tag es p of
        None \<Rightarrow> None
      | Some (res, p') \<Rightarrow> Some (on_done res cb p'))"

text \<open>
  \<open>stop()\<close>, seen from the calling thread. It raises the flag, reads the clock
  (\<open>t = time.time()\<close>) and then evaluates the loop condition before every sleep. Time is
  counted in milliseconds since \<open>t\<close>, so \<open>time.time() - t < 10\<close> is \<open>elapsed < 10000\<close>.
  \<open>time.sleep(0.1)\<close> sleeps at least 100 ms: the \<open>k\<close>-th sleep, together with whatever
  else runs until the next evaluation of the condition, takes \<open>100 + late k\<close> ms, where
  \<open>late\<close> is given by the scheduler of the operating system. The only other write to the
  flag is the \<open>finally\<close> block of the polling loop on the background thread:
  \<open>cleared k\<close> says whether that block ran since the previous evaluation of the condition
  (for \<open>k = 0\<close>: since the flag was raised) and before the \<open>k\<close>-th one. A process that
  never exits while no loop observes the flag is \<open>cleared = (\<lambda>k. False)\<close>.

  The result is the number of sleeps, the time at which the condition failed and the
  caller regains control, and the player.
\<close>

definition before_test :: "(nat \<Rightarrow> bool) \<Rightarrow> nat \<Rightarrow> SimpleProcessPlayer \<Rightarrow> SimpleProcessPlayer" where
  "before_test cleared k p = (if cleared k then finally_block p else p)"

function stop_loop ::
  "(nat \<Rightarrow> bool) \<Rightarrow> (nat \<Rightarrow> nat) \<Rightarrow> nat \<Rightarrow> nat \<Rightarrow> SimpleProcessPlayer
     \<Rightarrow> nat \<times> nat \<times> SimpleProcessPlayer" where
  "stop_loop cleared late k elapsed p =
     (if terminate_flag (before_test cleared k p) \<and> elapsed < 10000
      then stop_loop cleared late (Suc k) (elapsed + 100 + late k) (before_test cleared k p)
      else (k, elapsed, before_test cleared k p))"
  by pat_completeness auto
termination
  by (relation "measure (\<lambda>(cleared, late, k, elapsed, p). 10000 - elapsed)") auto

declare stop_loop.simps [simp del]

definition SimpleProcessPlayer_stop ::
  "(nat \<Rightarrow> bool) \<Rightarrow> (nat \<Rightarrow> nat) \<Rightarrow> SimpleProcessPlayer \<Rightarrow> nat \<times> nat \<times> SimpleProcessPlayer" where
  "SimpleProcessPlayer_stop cleared late p =
     stop_loop cleared late 0 0 (p\<lparr>terminate_flag := True\<rparr>)"



section \<open>The mpv-backed player (class MpvManager)\<close>

text \<open>
  The base class \<open>MPV\<close> (module \<open>aqt.mpv\<close>) is not part of the sources; the commands sent to
  it are recorded in \<open>mpv_output\<close> (the path sent with \<open>loadfile\<close> is recorded as the tag's
  file name), and its idle event is the call of \<open>on_idle\<close>. Callbacks are named by
  numbers.
\<close>

datatype mpv_effect = Loadfile string | StopCommand | MpvOnDone nat

record MpvManager =
  mpv_on_done :: "nat option"
  mpv_output :: "mpv_effect list"

definition new_MpvManager :: MpvManager where
  "new_MpvManager = \<lparr>mpv_on_done = None, mpv_output = []\<rparr>"

fun MpvManager_play :: "AVTag \<Rightarrow> nat \<Rightarrow> MpvManager \<Rightarrow> exn + MpvManager" where
  "MpvManager_play (SoundOrVideoTag filename) cb m =
     Inr (m\<lparr>mpv_on_done := Some cb, mpv_output := mpv_output m @ [Loadfile filename]\<rparr>)"
| "MpvManager_play (TTSTag text) cb m = Inl AssertionError"

definition MpvManager_stop :: "MpvManager \<Rightarrow> MpvManager" where
  "MpvManager_stop m = m\<lparr>mpv_output := mpv_output m @ [StopCommand]\<rparr>"

definition on_idle :: "MpvManager \<Rightarrow> MpvManager" where
  "on_idle m =
     (case mpv_on_done m of
        Some cb \<Rightarrow> m\<lparr>mpv_output := mpv_output m @ [MpvOnDone cb]\<rparr>
      | None \<Rightarrow> m)"

section \<open>The class attribute args and its instances\<close>

text \<open>
  \<open>args\<close> is a class attribute holding a list object. The store maps references to list
  objects; \<open>class_args\<close> is the entry \<open>args\<close> of each class's own dictionary.
  \<open>SimpleProcessPlayer\<close> binds \<open>args\<close> to an empty list, \<open>SimpleMplayerPlayer\<close> binds it to
  the list returned by \<open>_packagedCmd\<close> (a copy, extended on Windows; here the parameter
  \<open>base\<close>), \<open>SimpleMplayerSlaveModePlayer\<close> binds nothing. No constructor of these three
  classes assigns \<open>self.args\<close>, so an instance's dictionary has no entry \<open>args\<close> and
  \<open>self.args\<close> is found in the first class of the method resolution order that binds it.
\<close>

datatype player_class =
    SimpleProcessPlayer_class
  | SimpleMplayerPlayer_class
  | SimpleMplayerSlaveModePlayer_class

record py_store =
  list_objects :: "nat \<Rightarrow> string list option"
  class_args :: "player_class \<Rightarrow> nat option"
  instances :: "player_class list"

fun mro :: "player_class \<Rightarrow> player_class list" where
  "mro SimpleProcessPlayer_class = [SimpleProcessPlayer_class]"
| "mro SimpleMplayerPlayer_class = [SimpleMplayerPlayer_class, SimpleProcessPlayer_class]"
| "mro SimpleMplayerSlaveModePlayer_class =
     [SimpleMplayerSlaveModePlayer_class, SimpleMplayerPlayer_class, SimpleProcessPlayer_class]"

fun lookup_args :: "py_store \<Rightarrow> player_class list \<Rightarrow> nat option" where
  "lookup_args st [] = None"
| "lookup_args st (c # cs) =
     (case class_args st c of Some r \<Rightarrow> Some r | None \<Rightarrow> lookup_args st cs)"

definition module_loaded :: "string list \<Rightarrow> py_store" where
  "module_loaded base =
     \<lparr>list_objects = (\<lambda>r. if r = 0 then Some [] else if r = 1 then Some base else None),
      class_args = (\<lambda>c. case c of
                      SimpleProcessPlayer_class \<Rightarrow> Some 0
                    | SimpleMplayerPlayer_class \<Rightarrow> Some 1
                    | SimpleMplayerSlaveModePlayer_class \<Rightarrow> None),
      instances = []\<rparr>"

text \<open>
  Constructing an instance. \<open>SimpleProcessPlayer.__init__\<close> sets instance fields only;
  \<open>SimpleMplayerSlaveModePlayer.__init__\<close> then runs \<open>self.args.append("-slave")\<close>, an
  update in place of the list object that \<open>self.args\<close> refers to.
\<close>

definition construct :: "player_class \<Rightarrow> py_store \<Rightarrow> py_store" where
  "construct c st =
     (let st1 = st\<lparr>instances := instances st @ [c]\<rparr>
      in if c = SimpleMplayerSlaveModePlayer_class
         then (case lookup_args st1 (mro c) of
                 Some r \<Rightarrow>
                   (case list_objects st1 r of
                      Some xs \<Rightarrow> st1\<lparr>list_objects := (list_objects st1)(r := Some (xs @ [''-slave'']))\<rparr>
                    | None \<Rightarrow> st1)
               | None \<Rightarrow> st1)
         else st1)"

text \<open>The command line \<open>self.args + [tag.filename]\<close> that \<open>_play\<close> passes to \<open>Popen\<close>.\<close>

definition popen_args :: "py_store \<Rightarrow> player_class \<Rightarrow> string \<Rightarrow> string list option" where
  "popen_args st c filename =
     (case lookup_args st (mro c) of
        Some r \<Rightarrow> (case list_objects st r of Some xs \<Rightarrow> Some (xs @ [filename]) | None \<Rightarrow> None)
      | None \<Rightarrow> None)"

section \<open>Auxiliary definitions for the properties\<close>

text \<open>
  A scheduler state is consistent when its recorded effects never start a player while
  another one is playing, and the player they leave playing is the one in the slot
  \<open>current_player\<close>.
\<close>

definition consistent :: "'p AVPlayer \<Rightarrow> bool" where
  "consistent s \<longleftrightarrow>
     exclusive None (effects s) \<and> playing_after None (effects s) = current_player s"

text \<open>
  \<open>SoundOrVideoPlayer.rank_for_tag\<close> with \<open>default_rank = 0\<close>: the rank function of a
  registry whose players all derive from \<open>SoundOrVideoPlayer\<close>.
\<close>

definition rank_sound :: "string \<Rightarrow> AVTag \<Rightarrow> int option" where
  "rank_sound p tag = (case tag of SoundOrVideoTag filename \<Rightarrow> Some 0 | TTSTag text \<Rightarrow> None)"

text \<open>A scheduler in the middle of playing \<open>a.mp3\<close> on its only player, \<open>b.mp3\<close> queued.\<close>

definition playing_a :: "string AVPlayer" where
  "playing_a =
     \<lparr>players = [''mplayer''], interrupt_current_audio = True,
      enqueued = [SoundOrVideoTag ''b.mp3''], current_player = Some ''mplayer'',
      effects = [WillPlay (SoundOrVideoTag ''a.mp3''),
                 PlayerPlay ''mplayer'' (SoundOrVideoTag ''a.mp3'')]\<rparr>"

section \<open>Player selection: properties\<close>

lemma rank_players_eq:
  "rank_players rk ps tag acc = acc @ List.map_filter (rank_pair rk tag) ps"
  by (induction ps arbitrary: acc)
     (auto simp: List.map_filter_simps rank_pair_def split: option.splits)

lemma rank_players_empty_iff:
  "rank_players rk ps tag [] = [] \<longleftrightarrow> (\<forall>p\<in>set ps. rk p tag = None)"
  by (induction ps)
     (auto simp: rank_players_eq List.map_filter_simps rank_pair_def split: option.splits)

lemma filter_rank_players:
  "filter (\<lambda>y. fst y = r) (List.map_filter (rank_pair rk tag) ps)
     = map (\<lambda>p. (r, p)) (filter (\<lambda>p. rk p tag = Some r) ps)"
  by (induction ps) (auto simp: List.map_filter_simps rank_pair_def split: option.splits)

lemma set_rank_players:
  "set (List.map_filter (rank_pair rk tag) ps) = {(r, p). p \<in> set ps \<and> rk p tag = Some r}"
  by (induction ps) (auto simp: List.map_filter_simps rank_pair_def split: option.splits)

text \<open>The last element that passes a filter sits at the greatest index that passes it.\<close>

lemma last_filter_index:
  "filter P xs \<noteq> [] \<Longrightarrow>
     \<exists>i<length xs. xs ! i = last (filter P xs) \<and> (\<forall>j<length xs. P (xs ! j) \<longrightarrow> j \<le> i)"
proof (induction xs rule: rev_induct)
  case Nil
  then show ?case by simp
next
  case (snoc x xs)
  show ?case
  proof (cases "P x")
    case True
    have "(xs @ [x]) ! length xs = last (filter P (xs @ [x]))" using True by simp
    moreover have "\<forall>j<length (xs @ [x]). P ((xs @ [x]) ! j) \<longrightarrow> j \<le> length xs" by auto
    ultimately show ?thesis by (intro exI[of _ "length xs"]) simp
  next
    case False
    with snoc.prems have ne: "filter P xs \<noteq> []" by simp
    from snoc.IH[OF ne] obtain i where i: "i < length xs" "xs ! i = last (filter P xs)"
      "\<forall>j<length xs. P (xs ! j) \<longrightarrow> j \<le> i" by blast
    have "(xs @ [x]) ! i = last (filter P (xs @ [x]))" using i False by (simp add: nth_append)
    moreover have "\<forall>j<length (xs @ [x]). P ((xs @ [x]) ! j) \<longrightarrow> j \<le> i"
      using i(3) False by (auto simp: nth_append less_Suc_eq)
    ultimately show ?thesis using i(1) by (intro exI[of _ i]) simp
  qed
qed

lemma last_filter_keep:
  "xs \<noteq> [] \<Longrightarrow> P (last xs) \<Longrightarrow> last (filter P xs) = last xs"
  by (induction xs rule: rev_induct) auto

lemma sort_key_not_Nil: "xs \<noteq> [] \<Longrightarrow> sort_key f xs \<noteq> []"
  by (metis length_sort length_0_conv)

text \<open>Stability: the last element of the sorted list is the last one of its key in the input.\<close>

lemma last_sort_key_stable:
  assumes "xs \<noteq> []"
  shows "last (sort_key f xs) = last (filter (\<lambda>y. f y = f (last (sort_key f xs))) xs)"
proof -
  let ?s = "sort_key f xs"
  have ne: "?s \<noteq> []" using assms by (rule sort_key_not_Nil)
  have "last ?s = last (filter (\<lambda>y. f y = f (last ?s)) ?s)"
    using ne by (simp add: last_filter_keep)
  then show ?thesis by (simp add: sort_key_stable)
qed

lemma last_sort_key_max:
  assumes "x \<in> set xs"
  shows "f x \<le> f (last (sort_key f xs))"
proof -
  let ?s = "sort_key f xs"
  have srt: "sorted (map f ?s)" by (rule sorted_sort_key)
  have xin: "x \<in> set ?s" using assms by simp
  have ne: "?s \<noteq> []" using assms by (intro sort_key_not_Nil) auto
  from xin[unfolded in_set_conv_nth] obtain i where i: "i < length ?s" "?s ! i = x" by blast
  have "map f ?s ! i \<le> map f ?s ! (length ?s - 1)"
    using srt i(1) by (intro sorted_nth_mono) auto
  then show ?thesis using i ne by (simp add: last_conv_nth)
qed

lemma best_player_for_tag_None_iff:
  "best_player_for_tag rk ps tag = None \<longleftrightarrow> (\<forall>p\<in>set ps. rk p tag = None)"
  using rank_players_empty_iff[of rk ps tag]
  by (auto simp: best_player_for_tag_def Let_def) (metis length_sort length_0_conv)+

text \<open>
  Claim C1. The selection function \<open>_best_player_for_tag\<close> is a function of the registry
  and the tag (so it is deterministic). It returns no player exactly when no registered
  player ranks the tag. When it returns a player \<open>p\<close>, then \<open>p\<close> is registered at some
  position \<open>i\<close>, it ranks the tag with some rank \<open>r\<close>, every rank that a registered player
  gives the tag is at most \<open>r\<close>, and every position whose player gives rank \<open>r\<close> is at most
  \<open>i\<close>: the highest rank wins, and among the players of the highest rank the one
  registered latest.
\<close>

theorem best_player_for_tag_highest_latest:
  "(best_player_for_tag rk ps tag = None \<longleftrightarrow> (\<forall>p\<in>set ps. rk p tag = None)) \<and>
   (\<forall>p. best_player_for_tag rk ps tag = Some p \<longrightarrow>
      (\<exists>i r. i < length ps \<and> ps ! i = p \<and> rk p tag = Some r \<and>
         (\<forall>j<length ps. \<forall>r'. rk (ps ! j) tag = Some r' \<longrightarrow>
              r' \<le> r \<and> (r' = r \<longrightarrow> j \<le> i))))"
proof (intro conjI allI impI)
  show "best_player_for_tag rk ps tag = None \<longleftrightarrow> (\<forall>p\<in>set ps. rk p tag = None)"
    by (rule best_player_for_tag_None_iff)
next
  fix p assume best: "best_player_for_tag rk ps tag = Some p"
  let ?ranked = "rank_players rk ps tag []"
  let ?s = "sort_key fst ?ranked"
  have rk_eq: "?ranked = List.map_filter (rank_pair rk tag) ps"
    by (simp add: rank_players_eq)
  from best have ne_s: "?s \<noteq> []" and p: "p = snd (last ?s)"
    by (auto simp: best_player_for_tag_def Let_def split: if_splits)
  have ne: "?ranked \<noteq> []" using ne_s by auto
  define r where "r = fst (last ?s)"
  have last_eq: "last ?s = last (filter (\<lambda>y. fst y = r) ?ranked)"
    unfolding r_def by (rule last_sort_key_stable[OF ne])
  let ?P = "\<lambda>q. rk q tag = Some r"
  have filt: "filter (\<lambda>y. fst y = r) ?ranked = map (\<lambda>q. (r, q)) (filter ?P ps)"
    by (simp add: rk_eq filter_rank_players)
  have "last ?s \<in> set ?s" using ne_s by (rule last_in_set)
  then have "last ?s \<in> set ?ranked" unfolding set_sort .
  then have "filter (\<lambda>y. fst y = r) ?ranked \<noteq> []"
    by (auto simp: filter_empty_conv r_def)
  then have fne: "filter ?P ps \<noteq> []" using filt by auto
  have p_last: "p = last (filter ?P ps)"
    using p last_eq filt fne by (simp add: last_map)
  from last_filter_index[OF fne] obtain i where i: "i < length ps"
    "ps ! i = last (filter ?P ps)"
    "\<forall>j<length ps. ?P (ps ! j) \<longrightarrow> j \<le> i" by blast
  have "last (filter ?P ps) \<in> set (filter ?P ps)" using fne by (rule last_in_set)
  then have rp: "rk p tag = Some r" using p_last by simp
  have maxr: "r' \<le> r" if "j < length ps" "rk (ps ! j) tag = Some r'" for j r'
  proof -
    have "(r', ps ! j) \<in> set ?ranked"
      using that by (auto simp: rk_eq set_rank_players)
    from last_sort_key_max[OF this, of fst] show ?thesis by (simp add: r_def)
  qed
  show "\<exists>i r. i < length ps \<and> ps ! i = p \<and> rk p tag = Some r \<and>
         (\<forall>j<length ps. \<forall>r'. rk (ps ! j) tag = Some r' \<longrightarrow>
              r' \<le> r \<and> (r' = r \<longrightarrow> j \<le> i))"
    using i p_last rp maxr by (intro exI[of _ i] exI[of _ r]) auto
qed

theorem best_player_for_tag_highest_latest_witness:
  "best_player_for_tag rank_AB [''A'', ''B''] (SoundOrVideoTag ''a.mp3'') = Some ''B'' \<and>
   (\<exists>i r. i < length [''A'', ''B''] \<and> [''A'', ''B''] ! i = ''B'' \<and>
      rank_AB ''B'' (SoundOrVideoTag ''a.mp3'') = Some r \<and>
      (\<forall>j<length [''A'', ''B'']. \<forall>r'.
          rank_AB ([''A'', ''B''] ! j) (SoundOrVideoTag ''a.mp3'') = Some r' \<longrightarrow>
            r' \<le> r \<and> (r' = r \<longrightarrow> j \<le> i)))"
proof -
  have e: "best_player_for_tag rank_AB [''A'', ''B''] (SoundOrVideoTag ''a.mp3'') = Some ''B''"
    by (simp add: best_player_for_tag_def rank_AB_def)
  from best_player_for_tag_highest_latest[of rank_AB "[''A'', ''B'']" "SoundOrVideoTag ''a.mp3''"] e
  show ?thesis by blast
qed

section \<open>The scheduler: properties\<close>

lemma playing_after_append:
  "playing_after a (xs @ ys) = playing_after (playing_after a xs) ys"
  by (induction a xs rule: playing_after.induct) simp_all

lemma exclusive_append:
  "exclusive a (xs @ ys) \<longleftrightarrow> exclusive a xs \<and> exclusive (playing_after a xs) ys"
  by (induction a xs rule: exclusive.induct) simp_all

lemma consistent_new: "consistent (new_AVPlayer ps b)"
  by (simp add: consistent_def new_AVPlayer_def)

lemma consistent_enqueued: "consistent (s\<lparr>enqueued := q\<rparr>) = consistent s"
  by (simp add: consistent_def)

lemma consistent_stop_if_playing: "consistent s \<Longrightarrow> consistent (stop_if_playing s)"
  by (cases "current_player s")
     (simp_all add: consistent_def stop_if_playing_def emit_def exclusive_append
        playing_after_append)

lemma consistent_play_next_if_idle: "consistent s \<Longrightarrow> consistent (play_next_if_idle rk s)"
  by (auto simp: consistent_def play_next_if_idle_def pop_next_def AVPlayer_play_def emit_def
        exclusive_append playing_after_append split: option.splits list.splits)

lemma consistent_finished:
  "consistent s \<Longrightarrow> consistent (emit DidPlay (s\<lparr>current_player := None\<rparr>))"
  by (simp add: consistent_def emit_def exclusive_append playing_after_append)

lemma consistent_apply_op: "consistent s \<Longrightarrow> consistent (apply_op rk operation s)"
proof (cases operation)
  case (PlayTags tags)
  assume c: "consistent s"
  then have "consistent (s\<lparr>enqueued := tags\<rparr>)" by (simp add: consistent_enqueued)
  then show ?thesis
    using PlayTags
    by (simp add: play_tags_def Let_def consistent_play_next_if_idle consistent_stop_if_playing)
next
  case (ExtendAndPlay tags)
  assume "consistent s"
  then show ?thesis using ExtendAndPlay
    by (simp add: extend_and_play_def consistent_play_next_if_idle consistent_enqueued)
next
  case (InsertFile f)
  assume "consistent s"
  then show ?thesis using InsertFile
    by (simp add: insert_file_def consistent_play_next_if_idle consistent_enqueued)
next
  case PlayFinished
  assume "consistent s"
  then show ?thesis using PlayFinished
    by (simp add: on_play_finished_def consistent_play_next_if_idle consistent_finished)
next
  case StopAndClearQueue
  assume "consistent s"
  then show ?thesis using StopAndClearQueue
    by (simp add: stop_and_clear_queue_def consistent_stop_if_playing consistent_enqueued)
qed

lemma consistent_run_ops: "consistent s \<Longrightarrow> consistent (run_ops rk ops s)"
  by (induction ops arbitrary: s) (simp_all add: consistent_apply_op)

text \<open>
  Claim C3. The active slot \<open>current_player\<close> holds at most one player by its type. For
  every sequence of scheduler operations (\<open>play_tags\<close>, \<open>extend_and_play\<close>, \<open>insert_file\<close>,
  completion callbacks, \<open>stop_and_clear_queue\<close>) run from a fresh scheduler, the calls made
  on players never start a player while an earlier play has neither been stopped nor
  reported finished, and the player left playing by those calls is the one in the slot.
  \<open>_play_next_if_idle\<close> changes nothing, so dispatches nothing, when the slot is occupied.
\<close>

theorem at_most_one_active:
  "exclusive None (effects (run_ops rk ops (new_AVPlayer ps interrupt))) \<and>
   playing_after None (effects (run_ops rk ops (new_AVPlayer ps interrupt)))
     = current_player (run_ops rk ops (new_AVPlayer ps interrupt)) \<and>
   (\<forall>s p. current_player s = Some p \<longrightarrow> play_next_if_idle rk s = s)"
proof -
  have "consistent (run_ops rk ops (new_AVPlayer ps interrupt))"
    by (rule consistent_run_ops[OF consistent_new])
  moreover have "\<forall>s p. current_player s = Some p \<longrightarrow> play_next_if_idle rk s = s"
    by (simp add: play_next_if_idle_def)
  ultimately show ?thesis by (simp add: consistent_def)
qed

theorem at_most_one_active_witness:
  "current_player (run_ops rank_sound
      [PlayTags [SoundOrVideoTag ''a.mp3'', SoundOrVideoTag ''b.mp3''],
       ExtendAndPlay [SoundOrVideoTag ''c.mp3''], PlayFinished]
      (new_AVPlayer [''mplayer''] True)) = Some ''mplayer'' \<and>
   exclusive None (effects (run_ops rank_sound
      [PlayTags [SoundOrVideoTag ''a.mp3'', SoundOrVideoTag ''b.mp3''],
       ExtendAndPlay [SoundOrVideoTag ''c.mp3''], PlayFinished]
      (new_AVPlayer [''mplayer''] True))) \<and>
   play_next_if_idle rank_sound (run_ops rank_sound
      [PlayTags [SoundOrVideoTag ''a.mp3'', SoundOrVideoTag ''b.mp3''],
       ExtendAndPlay [SoundOrVideoTag ''c.mp3''], PlayFinished]
      (new_AVPlayer [''mplayer''] True))
   = run_ops rank_sound
      [PlayTags [SoundOrVideoTag ''a.mp3'', SoundOrVideoTag ''b.mp3''],
       ExtendAndPlay [SoundOrVideoTag ''c.mp3''], PlayFinished]
      (new_AVPlayer [''mplayer''] True)"
proof -
  let ?s = "run_ops rank_sound
      [PlayTags [SoundOrVideoTag ''a.mp3'', SoundOrVideoTag ''b.mp3''],
       ExtendAndPlay [SoundOrVideoTag ''c.mp3''], PlayFinished]
      (new_AVPlayer [''mplayer''] True)"
  have cur: "current_player ?s = Some ''mplayer''"
    by (simp add: new_AVPlayer_def play_tags_def extend_and_play_def on_play_finished_def
          stop_if_playing_def play_next_if_idle_def pop_next_def AVPlayer_play_def emit_def
          best_player_for_tag_def rank_sound_def Let_def)
  from at_most_one_active[of rank_sound
      "[PlayTags [SoundOrVideoTag ''a.mp3'', SoundOrVideoTag ''b.mp3''],
        ExtendAndPlay [SoundOrVideoTag ''c.mp3''], PlayFinished]" "[''mplayer'']" True] cur
  show ?thesis by blast
qed

text \<open>
  Claim C7. When the slot is empty, the queue is \<open>tag # rest\<close> and no registered player
  ranks \<open>tag\<close> (in particular when the registry is empty), the dispatch
  \<open>_play_next_if_idle\<close> removes \<open>tag\<close> from the queue, reports the diagnostic and does
  nothing else: no \<open>play\<close> is invoked, the slot stays empty, \<open>tag\<close> is gone from the queue
  (not retried), and \<open>rest\<close> stays queued until a later dispatch. The function returns a
  state: there is no exception.
\<close>

theorem no_player_for_tag:
  assumes "current_player s = None" and "enqueued s = tag # rest"
    and "\<forall>p\<in>set (players s). rk p tag = None"
  shows "play_next_if_idle rk s
           = s\<lparr>enqueued := rest, effects := effects s @ [NoPlayersFound tag]\<rparr>"
proof -
  have "best_player_for_tag rk (players s) tag = None"
    using assms(3) by (simp add: best_player_for_tag_None_iff)
  then show ?thesis
    using assms(1,2) by (simp add: play_next_if_idle_def pop_next_def AVPlayer_play_def emit_def)
qed

theorem no_player_for_tag_witness:
  "play_next_if_idle rank_sound
     ((new_AVPlayer [''mplayer''] True)\<lparr>enqueued := [TTSTag ''hello'', SoundOrVideoTag ''b.mp3'']\<rparr>)
   = \<lparr>players = [''mplayer''], interrupt_current_audio = True,
      enqueued = [SoundOrVideoTag ''b.mp3''], current_player = None,
      effects = [NoPlayersFound (TTSTag ''hello'')]\<rparr>"
  using no_player_for_tag[of
      "(new_AVPlayer [''mplayer''] True)\<lparr>enqueued := [TTSTag ''hello'', SoundOrVideoTag ''b.mp3'']\<rparr>"
      "TTSTag ''hello''" "[SoundOrVideoTag ''b.mp3'']" rank_sound]
  by (simp add: new_AVPlayer_def rank_sound_def)

text \<open>
  Claim C8. While a player is active, \<open>extend_and_play tags\<close> appends \<open>tags\<close> to the end of
  the queue and changes nothing else: the slot, the registry, the policy and the recorded
  effects are the same, so no stop and no play is issued and the tags queued before stay
  in front. The completion of the current play then dispatches the head of the extended
  queue: the hooks and the \<open>play\<close> of the best player are recorded and that player takes
  the slot. When the scheduler is idle, \<open>extend_and_play\<close> itself dispatches that head in
  the same way (or reports that no player was found), and does nothing when the
  extended queue is empty.
\<close>

theorem extend_and_play_frame:
  "(current_player s = Some p \<longrightarrow>
      extend_and_play rk tags s = s\<lparr>enqueued := enqueued s @ tags\<rparr>) \<and>
   (current_player s = Some p \<and> enqueued s @ tags = tag # rest \<and>
    best_player_for_tag rk (players s) tag = Some q \<longrightarrow>
      on_play_finished rk (extend_and_play rk tags s)
        = s\<lparr>enqueued := rest, current_player := Some q,
            effects := effects s @ [DidPlay, WillPlay tag, PlayerPlay q tag]\<rparr>) \<and>
   (current_player s = None \<and> enqueued s @ tags = tag # rest \<and>
    best_player_for_tag rk (players s) tag = Some q \<longrightarrow>
      extend_and_play rk tags s
        = s\<lparr>enqueued := rest, current_player := Some q,
            effects := effects s @ [WillPlay tag, PlayerPlay q tag]\<rparr>) \<and>
   (current_player s = None \<and> enqueued s @ tags = tag # rest \<and>
    best_player_for_tag rk (players s) tag = None \<longrightarrow>
      extend_and_play rk tags s
        = s\<lparr>enqueued := rest, effects := effects s @ [NoPlayersFound tag]\<rparr>) \<and>
   (current_player s = None \<and> enqueued s @ tags = [] \<longrightarrow>
      extend_and_play rk tags s = s\<lparr>enqueued := []\<rparr>)"
  by (simp add: extend_and_play_def on_play_finished_def play_next_if_idle_def pop_next_def
        AVPlayer_play_def emit_def)

theorem extend_and_play_frame_witness:
  "extend_and_play rank_sound [SoundOrVideoTag ''c.mp3''] playing_a
     = playing_a\<lparr>enqueued := [SoundOrVideoTag ''b.mp3'', SoundOrVideoTag ''c.mp3'']\<rparr> \<and>
   on_play_finished rank_sound (extend_and_play rank_sound [SoundOrVideoTag ''c.mp3''] playing_a)
     = \<lparr>players = [''mplayer''], interrupt_current_audio = True,
        enqueued = [SoundOrVideoTag ''c.mp3''], current_player = Some ''mplayer'',
        effects = [WillPlay (SoundOrVideoTag ''a.mp3''),
                   PlayerPlay ''mplayer'' (SoundOrVideoTag ''a.mp3''), DidPlay,
                   WillPlay (SoundOrVideoTag ''b.mp3''),
                   PlayerPlay ''mplayer'' (SoundOrVideoTag ''b.mp3'')]\<rparr> \<and>
   extend_and_play rank_sound [SoundOrVideoTag ''c.mp3''] (new_AVPlayer [''mplayer''] True)
     = \<lparr>players = [''mplayer''], interrupt_current_audio = True, enqueued = [],
        current_player = Some ''mplayer'',
        effects = [WillPlay (SoundOrVideoTag ''c.mp3''),
                   PlayerPlay ''mplayer'' (SoundOrVideoTag ''c.mp3'')]\<rparr>"
proof -
  have cur: "current_player playing_a = Some ''mplayer''"
    by (simp add: playing_a_def)
  have q: "enqueued playing_a @ [SoundOrVideoTag ''c.mp3'']
             = SoundOrVideoTag ''b.mp3'' # [SoundOrVideoTag ''c.mp3'']"
    by (simp add: playing_a_def)
  have best: "best_player_for_tag rank_sound (players playing_a) (SoundOrVideoTag ''b.mp3'')
                = Some ''mplayer''"
    by (simp add: playing_a_def best_player_for_tag_def rank_sound_def)
  have cur0: "current_player (new_AVPlayer [''mplayer''] True) = None"
    by (simp add: new_AVPlayer_def)
  have q0: "enqueued (new_AVPlayer [''mplayer''] True) @ [SoundOrVideoTag ''c.mp3'']
              = SoundOrVideoTag ''c.mp3'' # []"
    by (simp add: new_AVPlayer_def)
  have best0: "best_player_for_tag rank_sound (players (new_AVPlayer [''mplayer''] True))
                 (SoundOrVideoTag ''c.mp3'') = Some ''mplayer''"
    by (simp add: new_AVPlayer_def best_player_for_tag_def rank_sound_def)
  from extend_and_play_frame[where s = playing_a and p = "''mplayer''" and rk = rank_sound
          and tags = "[SoundOrVideoTag ''c.mp3'']" and tag = "SoundOrVideoTag ''b.mp3''"
          and rest = "[SoundOrVideoTag ''c.mp3'']" and q = "''mplayer''"] cur q best
  have a: "extend_and_play rank_sound [SoundOrVideoTag ''c.mp3''] playing_a
             = playing_a\<lparr>enqueued := enqueued playing_a @ [SoundOrVideoTag ''c.mp3'']\<rparr>"
    and b: "on_play_finished rank_sound
              (extend_and_play rank_sound [SoundOrVideoTag ''c.mp3''] playing_a)
             = playing_a\<lparr>enqueued := [SoundOrVideoTag ''c.mp3''],
                 current_player := Some ''mplayer'',
                 effects := effects playing_a @ [DidPlay, WillPlay (SoundOrVideoTag ''b.mp3''),
                              PlayerPlay ''mplayer'' (SoundOrVideoTag ''b.mp3'')]\<rparr>"
    by blast+
  from extend_and_play_frame[where s = "new_AVPlayer [''mplayer''] True" and rk = rank_sound
          and tags = "[SoundOrVideoTag ''c.mp3'']" and tag = "SoundOrVideoTag ''c.mp3''"
          and rest = "[]" and q = "''mplayer''"] cur0 q0 best0
  have c: "extend_and_play rank_sound [SoundOrVideoTag ''c.mp3''] (new_AVPlayer [''mplayer''] True)
             = (new_AVPlayer [''mplayer''] True)\<lparr>enqueued := [],
                 current_player := Some ''mplayer'',
                 effects := effects (new_AVPlayer [''mplayer''] True)
                              @ [WillPlay (SoundOrVideoTag ''c.mp3''),
                                 PlayerPlay ''mplayer'' (SoundOrVideoTag ''c.mp3'')]\<rparr>"
    by blast
  show ?thesis
  proof (intro conjI)
    show "extend_and_play rank_sound [SoundOrVideoTag ''c.mp3''] playing_a
            = playing_a\<lparr>enqueued := [SoundOrVideoTag ''b.mp3'', SoundOrVideoTag ''c.mp3'']\<rparr>"
      using a by (simp add: playing_a_def)
  next
    show "on_play_finished rank_sound
            (extend_and_play rank_sound [SoundOrVideoTag ''c.mp3''] playing_a)
          = \<lparr>players = [''mplayer''], interrupt_current_audio = True,
             enqueued = [SoundOrVideoTag ''c.mp3''], current_player = Some ''mplayer'',
             effects = [WillPlay (SoundOrVideoTag ''a.mp3''),
                        PlayerPlay ''mplayer'' (SoundOrVideoTag ''a.mp3''), DidPlay,
                        WillPlay (SoundOrVideoTag ''b.mp3''),
                        PlayerPlay ''mplayer'' (SoundOrVideoTag ''b.mp3'')]\<rparr>"
      using b by (simp add: playing_a_def)
  next
    show "extend_and_play rank_sound [SoundOrVideoTag ''c.mp3''] (new_AVPlayer [''mplayer''] True)
          = \<lparr>players = [''mplayer''], interrupt_current_audio = True, enqueued = [],
             current_player = Some ''mplayer'',
             effects = [WillPlay (SoundOrVideoTag ''c.mp3''),
                        PlayerPlay ''mplayer'' (SoundOrVideoTag ''c.mp3'')]\<rparr>"
      using c by (simp add: new_AVPlayer_def)
  qed
qed

text \<open>
  Claim C10. With the interrupt policy enabled, \<open>play_tags []\<close> returns a state (no error)
  in which the queue is empty and the slot is empty; an active player, if there was one,
  has received exactly one \<open>stop\<close>, and nothing is dispatched. This is what
  \<open>stop_and_clear_queue\<close> does.
\<close>

theorem play_tags_empty:
  assumes "interrupt_current_audio s"
  shows "play_tags rk [] s =
           (case current_player s of
              Some p \<Rightarrow> s\<lparr>enqueued := [], current_player := None,
                          effects := effects s @ [PlayerStop p]\<rparr>
            | None \<Rightarrow> s\<lparr>enqueued := []\<rparr>) \<and>
         play_tags rk [] s = stop_and_clear_queue s"
  using assms
  by (cases "current_player s")
     (simp_all add: play_tags_def Let_def stop_and_clear_queue_def stop_if_playing_def
        play_next_if_idle_def pop_next_def emit_def)

theorem play_tags_empty_witness:
  "interrupt_current_audio playing_a \<and>
   play_tags rank_sound [] playing_a
     = \<lparr>players = [''mplayer''], interrupt_current_audio = True, enqueued = [],
        current_player = None,
        effects = [WillPlay (SoundOrVideoTag ''a.mp3''),
                   PlayerPlay ''mplayer'' (SoundOrVideoTag ''a.mp3''),
                   PlayerStop ''mplayer'']\<rparr>"
  using play_tags_empty[of playing_a rank_sound]
  by (simp add: playing_a_def)

section \<open>Process-backed players: properties\<close>

lemma wait_for_termination_timeouts:
  "\<not> terminate_flag p \<Longrightarrow>
     wait_for_termination (replicate n (Wait TimeoutExpired) @ es) p = wait_for_termination es p"
  by (induction n) simp_all

lemma stop_loop_bounds:
  "fst (stop_loop cleared late k elapsed p) \<ge> k \<and>
   (fst (stop_loop cleared late k elapsed p) = k \<longrightarrow>
      fst (snd (stop_loop cleared late k elapsed p)) = elapsed) \<and>
   (fst (stop_loop cleared late k elapsed p) = k \<or>
      elapsed + 100 * (fst (stop_loop cleared late k elapsed p) - k) \<le> 10099) \<and>
   (k < fst (stop_loop cleared late k elapsed p) \<longrightarrow>
      fst (snd (stop_loop cleared late k elapsed p))
        < 10100 + late (fst (stop_loop cleared late k elapsed p) - 1)) \<and>
   (terminate_flag (snd (snd (stop_loop cleared late k elapsed p))) \<longrightarrow>
      10000 \<le> fst (snd (stop_loop cleared late k elapsed p)))"
proof (induction cleared late k elapsed p rule: stop_loop.induct)
  case (1 cleared late k elapsed p)
  let ?p' = "before_test cleared k p"
  show ?case
  proof (cases "terminate_flag ?p' \<and> elapsed < 10000")
    case True
    then have lt: "elapsed < 10000" by simp
    define r where "r = stop_loop cleared late (Suc k) (elapsed + 100 + late k) ?p'"
    have eq: "stop_loop cleared late k elapsed p = r"
      unfolding r_def using True by (subst stop_loop.simps) simp
    from "1.IH"[OF True, folded r_def]
    have ih1: "Suc k \<le> fst r"
      and ih2: "fst r = Suc k \<longrightarrow> fst (snd r) = elapsed + 100 + late k"
      and ih3: "fst r = Suc k \<or> elapsed + 100 + late k + 100 * (fst r - Suc k) \<le> 10099"
      and ih4: "Suc k < fst r \<longrightarrow> fst (snd r) < 10100 + late (fst r - 1)"
      and ih5: "terminate_flag (snd (snd r)) \<longrightarrow> 10000 \<le> fst (snd r)"
      by blast+
    have c1: "k \<le> fst r" using ih1 by simp
    have c2: "fst r = k \<longrightarrow> fst (snd r) = elapsed" using ih1 by simp
    have c3: "fst r = k \<or> elapsed + 100 * (fst r - k) \<le> 10099"
    proof (cases "fst r = Suc k")
      case True
      then show ?thesis using lt by simp
    next
      case False
      with ih3 have "elapsed + 100 + late k + 100 * (fst r - Suc k) \<le> 10099" by simp
      moreover have "fst r - k = Suc (fst r - Suc k)" using ih1 by simp
      ultimately show ?thesis by simp
    qed
    have c4: "k < fst r \<longrightarrow> fst (snd r) < 10100 + late (fst r - 1)"
    proof (cases "fst r = Suc k")
      case True
      then show ?thesis using ih2 lt by simp
    next
      case False
      then have "Suc k < fst r" using ih1 by simp
      then show ?thesis using ih4 by simp
    qed
    show ?thesis unfolding eq using c1 c2 c3 c4 ih5 by blast
  next
    case False
    then have eq: "stop_loop cleared late k elapsed p = (k, elapsed, ?p')"
      by (subst stop_loop.simps) auto
    show ?thesis unfolding eq using False by auto
  qed
qed

lemma stop_loop_never_cleared:
  "terminate_flag p \<Longrightarrow> snd (snd (stop_loop (\<lambda>k. False) late k elapsed p)) = p"
proof (induction "\<lambda>k::nat. False" late k elapsed p rule: stop_loop.induct)
  case (1 late k elapsed p)
  have bt: "before_test (\<lambda>k. False) k p = p" by (simp add: before_test_def)
  show ?case
  proof (cases "elapsed < 10000")
    case True
    have eq: "stop_loop (\<lambda>k. False) late k elapsed p
                = stop_loop (\<lambda>k. False) late (Suc k) (elapsed + 100 + late k) p"
      using True "1.prems" by (subst stop_loop.simps) (simp add: bt)
    have "snd (snd (stop_loop (\<lambda>k. False) late (Suc k) (elapsed + 100 + late k)
                     (before_test (\<lambda>k. False) k p))) = before_test (\<lambda>k. False) k p"
      using True "1.prems" by (intro "1.hyps") (simp_all add: bt)
    then show ?thesis unfolding eq by (simp add: bt)
  next
    case False
    then show ?thesis by (subst stop_loop.simps) (simp add: bt)
  qed
qed






lemma wait_for_termination_exit:
  "wait_for_termination pre p = None \<Longrightarrow>
     wait_for_termination (pre @ Wait (Exited returncode) # es) p
     = Some (Returned,
         p\<lparr>process := None, terminate_flag := False,
           proc_log := proc_log p @ (if returncode \<noteq> 0 then [PrintReturnCode returncode] else [])\<rparr>)"
proof (induction pre p rule: wait_for_termination.induct)
  case (1 p)
  show ?case by (simp add: finally_block_def)
next
  case (2 es' p)
  then show ?case by simp
next
  case (3 r es' p)
  then show ?case by simp
next
  case (4 es' p)
  then show ?case by (simp split: if_splits)
qed

text \<open>
  Claim C6. A play whose process exits on its own with a return code other than zero:
  whenever the play is still polling after the events \<open>pre\<close> (it has neither seen an exit
  nor been interrupted) and the next wait sees the exit, the return code is printed,
  nothing is terminated, \<open>_play\<close> returns normally (it does not raise
  \<open>PlayerInterrupted\<close>), and \<open>_on_done\<close> invokes the callback.
\<close>

theorem nonzero_exit_is_completion:
  assumes "SimpleProcessPlayer_play_task (SoundOrVideoTag filename) pre p = None"
    and "returncode \<noteq> 0"
  shows "SimpleProcessPlayer_play_task (SoundOrVideoTag filename)
           (pre @ Wait (Exited returncode) # es) p
         = Some (Returned,
             p\<lparr>process := None, terminate_flag := False,
               proc_log := proc_log p @ [Popen (args p @ [filename]), PrintReturnCode returncode]\<rparr>) \<and>
         SimpleProcessPlayer_play (SoundOrVideoTag filename) cb
           (pre @ Wait (Exited returncode) # es) p
         = Some (Inr
             (p\<lparr>process := None, terminate_flag := False,
               proc_log := proc_log p @ [Popen (args p @ [filename]), PrintReturnCode returncode,
                                         OnDoneCallback cb]\<rparr>))"
  using assms wait_for_termination_exit[of pre
      "p\<lparr>process := Some (args p @ [filename]),
         proc_log := proc_log p @ [Popen (args p @ [filename])]\<rparr>" returncode es]
  by (simp add: SimpleProcessPlayer_play_def)

theorem nonzero_exit_is_completion_witness:
  "SimpleProcessPlayer_play_task (SoundOrVideoTag ''a.mp3'')
     [Wait TimeoutExpired, Wait TimeoutExpired] (new_SimpleProcessPlayer [''mplayer'']) = None \<and>
   SimpleProcessPlayer_play (SoundOrVideoTag ''a.mp3'') 7
     [Wait TimeoutExpired, Wait TimeoutExpired, Wait (Exited 1)]
     (new_SimpleProcessPlayer [''mplayer''])
   = Some (Inr \<lparr>args = [''mplayer''], terminate_flag = False, process = None,
                 proc_log = [Popen [''mplayer'', ''a.mp3''], PrintReturnCode 1,
                             OnDoneCallback 7]\<rparr>)"
  using nonzero_exit_is_completion[where filename = "''a.mp3''"
          and pre = "[Wait TimeoutExpired, Wait TimeoutExpired]"
          and p = "new_SimpleProcessPlayer [''mplayer'']" and returncode = 1 and cb = 7
          and es = "[]"]
  by (simp add: new_SimpleProcessPlayer_def)

text \<open>
  What the polling loop does guarantee: a poll that times out while the flag is raised
  ends the play with \<open>PlayerInterrupted\<close>, the process is terminated and the callback is
  not invoked; a play that is never stopped and whose process exits invokes the callback
  exactly once.
\<close>

lemma observed_stop_suppresses_callback:
  "terminate_flag p \<Longrightarrow>
     SimpleProcessPlayer_play (SoundOrVideoTag filename) cb (Wait TimeoutExpired # es) p
     = Some (Inr (p\<lparr>process := None, terminate_flag := False,
                    proc_log := proc_log p @ [Popen (args p @ [filename]), Terminate]\<rparr>))"
  by (simp add: SimpleProcessPlayer_play_def finally_block_def)

lemma unstopped_exit_fires_callback_once:
  "\<not> terminate_flag p \<Longrightarrow>
     SimpleProcessPlayer_play (SoundOrVideoTag filename) cb
       (replicate n (Wait TimeoutExpired) @ Wait (Exited 0) # es) p
     = Some (Inr (p\<lparr>process := None, terminate_flag := False,
                    proc_log := proc_log p @ [Popen (args p @ [filename]), OnDoneCallback cb]\<rparr>))"
  by (simp add: SimpleProcessPlayer_play_def wait_for_termination_timeouts finally_block_def)

text \<open>
  Claim C2, evaluated where it fails. A play on a \<open>SimpleProcessPlayer\<close> during which
  \<open>stop()\<close> raises the flag and the process then exits within the same 100 ms wait: the
  loop returns at the exit without reading the flag, and the completion callback of that
  play is invoked although \<open>stop()\<close> came first. On \<open>MpvManager\<close>, \<open>stop()\<close> leaves
  \<open>_on_done\<close> set, so the idle event that follows the stop invokes the callback of the
  stopped play.
\<close>

theorem on_done_fires_after_stop:
  "SimpleProcessPlayer_play (SoundOrVideoTag ''a.mp3'') 7 [StopCalled, Wait (Exited 0)]
     (new_SimpleProcessPlayer [''mplayer''])
   = Some (Inr \<lparr>args = [''mplayer''], terminate_flag = False, process = None,
                 proc_log = [Popen [''mplayer'', ''a.mp3''], OnDoneCallback 7]\<rparr>) \<and>
   MpvManager_play (SoundOrVideoTag ''a.mp3'') 7 new_MpvManager
   = Inr \<lparr>mpv_on_done = Some 7, mpv_output = [Loadfile ''a.mp3'']\<rparr> \<and>
   on_idle (MpvManager_stop \<lparr>mpv_on_done = Some 7, mpv_output = [Loadfile ''a.mp3'']\<rparr>)
   = \<lparr>mpv_on_done = Some 7, mpv_output = [Loadfile ''a.mp3'', StopCommand, MpvOnDone 7]\<rparr>"
  by (simp add: SimpleProcessPlayer_play_def new_SimpleProcessPlayer_def finally_block_def
        new_MpvManager_def MpvManager_stop_def on_idle_def)

text \<open>
  Claim C5, evaluated where it fails. \<open>stop()\<close> on a player with no playback in progress:
  no polling loop runs, the flag is never cleared, \<open>stop()\<close> returns only once 10000 ms
  have elapsed (whatever the clock does) and leaves the flag raised. The next play finds
  it: at its first poll that times out the process is terminated and the callback is not
  invoked, while the same play on a fresh player completes and invokes the callback.
\<close>

theorem stop_flag_persists_into_next_play:
  "snd (snd (SimpleProcessPlayer_stop (\<lambda>k. False) late (new_SimpleProcessPlayer [''mplayer''])))
   = \<lparr>args = [''mplayer''], terminate_flag = True, process = None, proc_log = []\<rparr> \<and>
   10000 \<le> fst (snd (SimpleProcessPlayer_stop (\<lambda>k. False) late
                        (new_SimpleProcessPlayer [''mplayer'']))) \<and>
   SimpleProcessPlayer_play (SoundOrVideoTag ''a.mp3'') 7 [Wait TimeoutExpired, Wait (Exited 0)]
     \<lparr>args = [''mplayer''], terminate_flag = True, process = None, proc_log = []\<rparr>
   = Some (Inr \<lparr>args = [''mplayer''], terminate_flag = False, process = None,
                 proc_log = [Popen [''mplayer'', ''a.mp3''], Terminate]\<rparr>) \<and>
   SimpleProcessPlayer_play (SoundOrVideoTag ''a.mp3'') 7 [Wait TimeoutExpired, Wait (Exited 0)]
     (new_SimpleProcessPlayer [''mplayer''])
   = Some (Inr \<lparr>args = [''mplayer''], terminate_flag = False, process = None,
                 proc_log = [Popen [''mplayer'', ''a.mp3''], OnDoneCallback 7]\<rparr>)"
proof -
  let ?p = "(new_SimpleProcessPlayer [''mplayer''])\<lparr>terminate_flag := True\<rparr>"
  have nc: "snd (snd (stop_loop (\<lambda>k. False) late 0 0 ?p)) = ?p"
    by (rule stop_loop_never_cleared) simp
  have ge: "10000 \<le> fst (snd (stop_loop (\<lambda>k. False) late 0 0 ?p))"
    using stop_loop_bounds[of 0 "\<lambda>k. False" late 0 ?p] nc by simp
  show ?thesis
    using nc ge
    by (simp add: SimpleProcessPlayer_stop_def SimpleProcessPlayer_play_def
          new_SimpleProcessPlayer_def finally_block_def)
qed

section \<open>The shared argument list: properties\<close>

text \<open>
  Claim C9. Constructing a \<open>SimpleMplayerSlaveModePlayer\<close> appends \<open>-slave\<close> to the list
  object that the class attribute \<open>SimpleMplayerPlayer.args\<close> refers to. After two
  constructions that list ends with \<open>-slave\<close> twice, and the command line of a process
  launched by any instance of \<open>SimpleMplayerPlayer\<close> or of the slave-mode class carries
  both, where before the constructions it was the base list and the file name. The list
  of \<open>SimpleProcessPlayer\<close> is a different object and is unchanged.
\<close>

theorem slave_mode_args_shared:
  "class_args (construct SimpleMplayerSlaveModePlayer_class
      (construct SimpleMplayerSlaveModePlayer_class (module_loaded base)))
      SimpleMplayerPlayer_class = Some 1 \<and>
   list_objects (construct SimpleMplayerSlaveModePlayer_class (module_loaded base)) 1
     = Some (base @ [''-slave'']) \<and>
   list_objects (construct SimpleMplayerSlaveModePlayer_class
      (construct SimpleMplayerSlaveModePlayer_class (module_loaded base))) 1
     = Some (base @ [''-slave'', ''-slave'']) \<and>
   list_objects (construct SimpleMplayerSlaveModePlayer_class
      (construct SimpleMplayerSlaveModePlayer_class (module_loaded base))) 0 = Some [] \<and>
   popen_args (module_loaded base) SimpleMplayerPlayer_class filename
     = Some (base @ [filename]) \<and>
   popen_args (construct SimpleMplayerSlaveModePlayer_class
      (construct SimpleMplayerSlaveModePlayer_class (module_loaded base)))
      SimpleMplayerPlayer_class filename
     = Some (base @ [''-slave'', ''-slave'', filename]) \<and>
   popen_args (construct SimpleMplayerSlaveModePlayer_class
      (construct SimpleMplayerSlaveModePlayer_class (module_loaded base)))
      SimpleMplayerSlaveModePlayer_class filename
     = Some (base @ [''-slave'', ''-slave'', filename]) \<and>
   popen_args (construct SimpleMplayerPlayer_class
      (construct SimpleMplayerSlaveModePlayer_class
        (construct SimpleMplayerSlaveModePlayer_class (module_loaded base))))
      SimpleMplayerPlayer_class filename
     = Some (base @ [''-slave'', ''-slave'', filename])"
  by (simp add: construct_def module_loaded_def popen_args_def Let_def)

end
